theory Spec2Isabelle
  imports Complex_Main "HOL-Library.Multiset"
begin

section \<open>Tags, errors and the decimal form of integers\<close>

text \<open>
  A tag handed to \<^verbatim>\<open>DoOutputsTuple.__getitem__\<close> is \<^verbatim>\<open>None\<close>, a string or an
  \<^verbatim>\<open>int\<close> instance. Python compares values of different kinds as unequal
  (\<^verbatim>\<open>1 == '1'\<close> is false), which is the equality of the datatype.
\<close>

datatype tag = NoneTag | StrTag string | IntTag int

datatype error = ValueError | RunnerError | TypeError | KeyError

text \<open>Python's \<^verbatim>\<open>str(i)\<close> for an integer: decimal digits, a minus sign when negative.\<close>

definition digit_char :: "nat \<Rightarrow> char" where
  "digit_char d = ''0123456789'' ! d"

function str_nat :: "nat \<Rightarrow> string" where
  "str_nat n = (if n < 10 then [digit_char n] else str_nat (n div 10) @ [digit_char (n mod 10)])"
  by pat_completeness auto
termination
  by (relation "measure id") auto

declare str_nat.simps [simp del]

definition str_int :: "int \<Rightarrow> string" where
  "str_int i = (if i < 0 then CHR ''-'' # str_nat (nat (- i)) else str_nat (nat i))"

section \<open>pvalue.py: PCollection and DoOutputsTuple\<close>

text \<open>
  A \<^verbatim>\<open>PCollection\<close> object carries the tag it was created with and the producer copied
  from the tuple. Objects live in the list \<open>pvalues\<close> of the owning pipeline
  (\<^verbatim>\<open>pipeline._add_pvalue\<close>); the identity of an object is its position there.
\<close>

type_synonym ref = nat

record pcollection =
  pc_tag :: tag
  pc_producer :: "nat option"

text \<open>
  The state reachable from one \<^verbatim>\<open>DoOutputsTuple\<close>: its own fields, the
  \<^verbatim>\<open>side_output_tags\<close> set of its transform and the values registered with its
  pipeline. \<open>tags = None\<close> is Python's \<^verbatim>\<open>None\<close> passed for \<^verbatim>\<open>tags\<close>.
\<close>

record do_outputs_tuple =
  tags :: "tag list option"
  main_tag :: tag
  producer :: "nat option"
  pcolls :: "tag \<rightharpoonup> ref"
  side_output_tags :: "tag set"
  pvalues :: "pcollection list"

text \<open>\<^verbatim>\<open>__init__\<close>: no producer yet, no PCollection associated with a tag.\<close>

definition DoOutputsTuple ::
  "pcollection list \<Rightarrow> tag set \<Rightarrow> tag list option \<Rightarrow> tag \<Rightarrow> do_outputs_tuple" where
  "DoOutputsTuple pipeline_values transform_tags ts m =
     \<lparr>tags = ts, main_tag = m, producer = None, pcolls = Map.empty,
      side_output_tags = transform_tags, pvalues = pipeline_values\<rparr>"

text \<open>Truth value of \<^verbatim>\<open>self._tags\<close>: \<^verbatim>\<open>None\<close> and the empty sequence are false.\<close>

definition tags_truthy :: "tag list option \<Rightarrow> bool" where
  "tags_truthy ts = (case ts of None \<Rightarrow> False | Some xs \<Rightarrow> xs \<noteq> [])"

definition tags_contain :: "tag list option \<Rightarrow> tag \<Rightarrow> bool" where
  "tags_contain ts t = (case ts of None \<Rightarrow> False | Some xs \<Rightarrow> t \<in> set xs)"

text \<open>\<^verbatim>\<open>if isinstance(tag, int): tag = str(tag)\<close>\<close>

definition coerce_tag :: "tag \<Rightarrow> tag" where
  "coerce_tag t = (case t of IntTag i \<Rightarrow> StrTag (str_int i) | _ \<Rightarrow> t)"

text \<open>
  The key under which \<^verbatim>\<open>__getitem__\<close> caches: the main tag becomes \<^verbatim>\<open>None\<close>.
\<close>

definition cache_key :: "do_outputs_tuple \<Rightarrow> tag \<Rightarrow> tag" where
  "cache_key s t = (if coerce_tag t = main_tag s then NoneTag else coerce_tag t)"

text \<open>
  \<^verbatim>\<open>__getitem__\<close>, returning the reference of the PCollection and the state after
  the call, or the error raised.
\<close>

definition getitem :: "do_outputs_tuple \<Rightarrow> tag \<Rightarrow> error + (ref \<times> do_outputs_tuple)" where
  "getitem s t0 =
     (let t1 = coerce_tag t0 in
      if t1 \<noteq> main_tag s \<and> tags_truthy (tags s) \<and> \<not> tags_contain (tags s) t1
      then Inl ValueError
      else
        let t = (if t1 = main_tag s then NoneTag else t1) in
        case pcolls s t of
          Some p \<Rightarrow> Inr (p, s)
        | None \<Rightarrow>
            let s1 = (if t \<noteq> NoneTag
                      then s\<lparr>side_output_tags := insert t (side_output_tags s)\<rparr>
                      else s);
                p = length (pvalues s1);
                s2 = s1\<lparr>pvalues := pvalues s1 @ [\<lparr>pc_tag = t, pc_producer = producer s1\<rparr>]\<rparr>
            in Inr (p, s2\<lparr>pcolls := (pcolls s2)(t \<mapsto> p)\<rparr>))"

text \<open>
  A caller that looks up several tags in turn; a lookup that raises leaves the tuple as it
  was (the \<^verbatim>\<open>raise\<close> comes before any assignment).
\<close>

fun run_lookups :: "do_outputs_tuple \<Rightarrow> tag list \<Rightarrow> do_outputs_tuple" where
  "run_lookups s [] = s"
| "run_lookups s (t # ts) =
     run_lookups (case getitem s t of Inl e \<Rightarrow> s | Inr (p, s') \<Rightarrow> s') ts"

text \<open>
  What holds of the cache of every tuple that lookups have built: a cached reference
  points into the pipeline's values and no two keys share a reference.
\<close>

definition cache_ok :: "do_outputs_tuple \<Rightarrow> bool" where
  "cache_ok s =
     ((\<forall>k p. pcolls s k = Some p \<longrightarrow> p < length (pvalues s)) \<and>
      (\<forall>k k' p. pcolls s k = Some p \<longrightarrow> pcolls s k' = Some p \<longrightarrow> k = k'))"

subsection \<open>Materializing a PCollection\<close>

text \<open>
  A \<^verbatim>\<open>WindowedValue\<close>: the value, its timestamp and its windows. The pipeline record
  holds the bound runner (\<open>None\<close> when no runner is bound); everything else a run may
  change is in the record's extension.
\<close>

record ('v, 'w) windowed_value =
  wv_value :: 'v
  wv_timestamp :: rat
  wv_windows :: "'w list"

record 'r pipeline =
  runner :: "'r option"

definition get_un_windowed_value :: "('v, 'w) windowed_value list \<Rightarrow> 'v list" where
  "get_un_windowed_value values = map wv_value values"

text \<open>
  \<^verbatim>\<open>_get_internal(self, runner=None)\<close> inside \<^verbatim>\<open>PCollection._get_values\<close>. The runner's
  \<^verbatim>\<open>run\<close> and \<^verbatim>\<open>get_pvalue\<close> are code outside this module and are parameters:
  \<open>run\<close> returns the pipeline after the run and the error it raised, if any.
\<close>

definition get_internal ::
  "('r \<Rightarrow> ('r, 'm) pipeline_scheme \<Rightarrow> ref \<Rightarrow> error option \<times> ('r, 'm) pipeline_scheme) \<Rightarrow>
   ('r \<Rightarrow> ('r, 'm) pipeline_scheme \<Rightarrow> ref \<Rightarrow> error + ('v, 'w) windowed_value list) \<Rightarrow>
   ('r, 'm) pipeline_scheme \<Rightarrow> ref \<Rightarrow> 'r option \<Rightarrow>
   (error + 'v list) \<times> ('r, 'm) pipeline_scheme" where
  "get_internal run get_pvalue p self runner_arg =
     (case (case runner_arg of Some r \<Rightarrow> Some r | None \<Rightarrow> runner p) of
        None \<Rightarrow> (Inl RunnerError, p)
      | Some r \<Rightarrow>
          (case run r p self of
             (Some e, p') \<Rightarrow> (Inl e, p')
           | (None, p') \<Rightarrow>
               (case get_pvalue r p' self of
                  Inl e \<Rightarrow> (Inl e, p')
                | Inr values \<Rightarrow> (Inr (get_un_windowed_value values), p'))))"

text \<open>\<^verbatim>\<open>_get_values\<close> calls \<^verbatim>\<open>_get_internal(self)\<close>: no runner is passed.\<close>

definition get_values ::
  "('r \<Rightarrow> ('r, 'm) pipeline_scheme \<Rightarrow> ref \<Rightarrow> error option \<times> ('r, 'm) pipeline_scheme) \<Rightarrow>
   ('r \<Rightarrow> ('r, 'm) pipeline_scheme \<Rightarrow> ref \<Rightarrow> error + ('v, 'w) windowed_value list) \<Rightarrow>
   ('r, 'm) pipeline_scheme \<Rightarrow> ref \<Rightarrow> (error + 'v list) \<times> ('r, 'm) pipeline_scheme" where
  "get_values run get_pvalue p self = get_internal run get_pvalue p self None"

section \<open>pvalue.py: side-input markers\<close>

text \<open>
  The field \<^verbatim>\<open>default_value\<close> of an \<^verbatim>\<open>AsSingleton\<close> holds either the private object
  \<^verbatim>\<open>_NO_DEFAULT\<close> or the value the caller passed. \<open>pyval\<close> are Python values a
  caller may pass, \<^verbatim>\<open>None\<close> among them.
\<close>

datatype pyval = PyNone | PyInt int | PyStr string | PyList "pyval list"

datatype 'v default_value = NO_DEFAULT | Default 'v

datatype 'v side_input = AsSingleton ref "'v default_value" | AsIter ref

text \<open>
  \<^verbatim>\<open>AsSingleton.__init__(self, pvalue, default_value=_NO_DEFAULT)\<close>: the second argument is
  \<open>None\<close> when the caller leaves it out and \<open>Some d\<close> when the caller passes \<open>d\<close>.
\<close>

definition AsSingleton_init :: "ref \<Rightarrow> 'v option \<Rightarrow> 'v side_input" where
  "AsSingleton_init pv default_arg =
     AsSingleton pv (case default_arg of None \<Rightarrow> NO_DEFAULT | Some d \<Rightarrow> Default d)"

fun side_pvalue :: "'v side_input \<Rightarrow> ref" where
  "side_pvalue (AsSingleton pv d) = pv"
| "side_pvalue (AsIter pv) = pv"

text \<open>
  The combiner transforms \<^verbatim>\<open>combiners.ToList(label)\<close> and \<^verbatim>\<open>combiners.ToDict(label)\<close>
  are built outside this module; here they are the values handed to the pipeline.
\<close>

datatype ptransform = ToList string | ToDict string

text \<open>
  \<^verbatim>\<open>PValue.__or__\<close>: \<^verbatim>\<open>self.pipeline.apply(ptransform, self)\<close>. \<^verbatim>\<open>Pipeline.apply\<close> is a
  parameter; it returns the output PCollection and the pipeline after the application,
  or the error it raised.
\<close>

definition pvalue_or ::
  "(ptransform \<Rightarrow> ref \<Rightarrow> 'p \<Rightarrow> error + (ref \<times> 'p)) \<Rightarrow> ref \<Rightarrow> ptransform \<Rightarrow> 'p \<Rightarrow>
   error + (ref \<times> 'p)" where
  "pvalue_or apply self ptransform p = apply ptransform self p"

text \<open>\<^verbatim>\<open>AsList(pcoll, label='AsList')\<close> and \<^verbatim>\<open>AsDict(pcoll, label='AsDict')\<close>.\<close>

definition AsList ::
  "(ptransform \<Rightarrow> ref \<Rightarrow> 'p \<Rightarrow> error + (ref \<times> 'p)) \<Rightarrow> ref \<Rightarrow> string option \<Rightarrow> 'p \<Rightarrow>
   error + ('v side_input \<times> 'p)" where
  "AsList apply pcoll label_arg p =
     (let label = (case label_arg of None \<Rightarrow> ''AsList'' | Some l \<Rightarrow> l) in
      case pvalue_or apply pcoll (ToList label) p of
        Inl e \<Rightarrow> Inl e
      | Inr (out, p') \<Rightarrow> Inr (AsSingleton_init out None, p'))"

definition AsDict ::
  "(ptransform \<Rightarrow> ref \<Rightarrow> 'p \<Rightarrow> error + (ref \<times> 'p)) \<Rightarrow> ref \<Rightarrow> string option \<Rightarrow> 'p \<Rightarrow>
   error + ('v side_input \<times> 'p)" where
  "AsDict apply pcoll label_arg p =
     (let label = (case label_arg of None \<Rightarrow> ''AsDict'' | Some l \<Rightarrow> l) in
      case pvalue_or apply pcoll (ToDict label) p of
        Inl e \<Rightarrow> Inl e
      | Inr (out, p') \<Rightarrow> Inr (AsSingleton_init out None, p'))"

subsection \<open>Resolving a side input\<close>

text \<open>
  What a consumer receives for a side input: a value, all elements, or the marker
  \<^verbatim>\<open>EmptySideInput\<close> (the class of that name in this module).
\<close>

datatype 'v side_value = SideValue 'v | SideIter "'v list" | EmptySideInput

text \<open>
  Modelled from the spec: the executor's resolution of a side-input marker against the
  elements of the wrapped collection is runner code that this module does not contain.
  The spec's words: \<^verbatim>\<open>AsSingleton\<close> yields the one element of the wrapped Collection,
  the caller's default if none exists, or the Empty-Side-Input sentinel if no default
  was given; \<^verbatim>\<open>AsIter\<close> yields all elements. The spec says nothing of a singleton
  over several elements; the model raises there.
\<close>

fun resolve_side_input :: "'v side_input \<Rightarrow> 'v list \<Rightarrow> error + 'v side_value" where
  "resolve_side_input (AsSingleton pv d) [] =
     (case d of NO_DEFAULT \<Rightarrow> Inr EmptySideInput | Default v \<Rightarrow> Inr (SideValue v))"
| "resolve_side_input (AsSingleton pv d) [x] = Inr (SideValue x)"
| "resolve_side_input (AsSingleton pv d) (x # y # ys) = Inl ValueError"
| "resolve_side_input (AsIter pv) xs = Inr (SideIter xs)"

section \<open>The top-N combiner\<close>

text \<open>
  Modelled from the spec: \<^verbatim>\<open>combiners.TopCombineFn\<close> is used by
  \<^verbatim>\<open>TopPerMonth.apply\<close> but its module is not among the sources. The spec's words: the
  combiner takes a strict-ordering comparator and retains only the N greatest elements
  under that ordering, ties broken by stable insertion order; the accumulator is the
  current best-N sequence; merging two accumulators is "concatenate, sort by the
  ordering, truncate to N". The comparator \<open>lt a b\<close> is "a < b"; the sort is a stable
  insertion sort with the greatest element first.
\<close>

fun insort_desc :: "('a \<Rightarrow> 'a \<Rightarrow> bool) \<Rightarrow> 'a \<Rightarrow> 'a list \<Rightarrow> 'a list" where
  "insort_desc lt x [] = [x]"
| "insort_desc lt x (y # ys) = (if lt x y then y # insort_desc lt x ys else x # y # ys)"

fun sort_desc :: "('a \<Rightarrow> 'a \<Rightarrow> bool) \<Rightarrow> 'a list \<Rightarrow> 'a list" where
  "sort_desc lt [] = []"
| "sort_desc lt (x # xs) = insort_desc lt x (sort_desc lt xs)"

text \<open>
  Modelled from the spec: the four operations of the combiner (seed, fold one element in,
  merge two accumulators, extract the result), for \<^verbatim>\<open>TopCombineFn(n, lt)\<close>.
\<close>

definition create_accumulator :: "'a list" where
  "create_accumulator = []"

definition add_input :: "('a \<Rightarrow> 'a \<Rightarrow> bool) \<Rightarrow> nat \<Rightarrow> 'a list \<Rightarrow> 'a \<Rightarrow> 'a list" where
  "add_input lt n acc x = take n (sort_desc lt (acc @ [x]))"

definition merge_accumulators ::
  "('a \<Rightarrow> 'a \<Rightarrow> bool) \<Rightarrow> nat \<Rightarrow> 'a list \<Rightarrow> 'a list \<Rightarrow> 'a list" where
  "merge_accumulators lt n a b = take n (sort_desc lt (a @ b))"

definition extract_output :: "'a list \<Rightarrow> 'a list" where
  "extract_output acc = acc"

text \<open>
  A way for a runner to combine: every shard folds its elements into an accumulator of
  its own, and the accumulators are merged two at a time along a tree. The shards of a
  plan are a partition of its elements; the shape of the tree and the order of the
  leaves are the merge order.
\<close>

datatype 'a plan = Shard "'a list" | Merge "'a plan" "'a plan"

fun run_plan :: "('a \<Rightarrow> 'a \<Rightarrow> bool) \<Rightarrow> nat \<Rightarrow> 'a plan \<Rightarrow> 'a list" where
  "run_plan lt n (Shard xs) = foldl (add_input lt n) create_accumulator xs"
| "run_plan lt n (Merge p q) = merge_accumulators lt n (run_plan lt n p) (run_plan lt n q)"

fun elements :: "'a plan \<Rightarrow> 'a multiset" where
  "elements (Shard xs) = mset xs"
| "elements (Merge p q) = elements p + elements q"

text \<open>For the proofs: the elements of a plan from left to right, and the N greatest of a list.\<close>

fun flat :: "'a plan \<Rightarrow> 'a list" where
  "flat (Shard xs) = xs"
| "flat (Merge p q) = flat p @ flat q"

definition top_of :: "('a \<Rightarrow> 'a \<Rightarrow> bool) \<Rightarrow> nat \<Rightarrow> 'a list \<Rightarrow> 'a list" where
  "top_of lt n xs = take n (sort_desc lt xs)"

abbreviation desc :: "('a \<Rightarrow> 'a \<Rightarrow> bool) \<Rightarrow> 'a list \<Rightarrow> bool" where
  "desc lt \<equiv> sorted_wrt (\<lambda>a b. \<not> lt a b)"

section \<open>The top sessions example\<close>

text \<open>
  Modelled from the spec: windows and windowed elements are defined in the window module,
  which is not among the sources. A window is the global window or an interval
  \<open>[start, end)\<close> of event time; an element of a collection is a value with its
  timestamp and its windows. Timestamps are Python floats; they are modelled as exact
  rationals, so rounding is not part of the model.
\<close>

datatype window = GlobalWindow | IntervalWindow rat rat

type_synonym 'v wvalue = "('v, window) windowed_value"

definition WindowedValue :: "'v \<Rightarrow> rat \<Rightarrow> window list \<Rightarrow> 'v wvalue" where
  "WindowedValue v t ws = \<lparr>wv_value = v, wv_timestamp = t, wv_windows = ws\<rparr>"

text \<open>
  Python's \<^verbatim>\<open>str\<close> of a float, for a value that is a decimal fraction: the integer part,
  a point and the fractional digits (at most twelve), \<^verbatim>\<open>0\<close> when there are none.
\<close>

fun frac_digits :: "nat \<Rightarrow> rat \<Rightarrow> string" where
  "frac_digits 0 r = []"
| "frac_digits (Suc k) r =
     (if r = 0 then []
      else digit_char (nat \<lfloor>r * 10\<rfloor>) # frac_digits k (r * 10 - of_int \<lfloor>r * 10\<rfloor>))"

definition str_float :: "rat \<Rightarrow> string" where
  "str_float r =
     (let a = \<bar>r\<bar>; ds = frac_digits 12 (a - of_int \<lfloor>a\<rfloor>)
      in (if r < 0 then ''-'' else []) @ str_nat (nat \<lfloor>a\<rfloor>) @ ''.'' @
         (if ds = [] then ''0'' else ds))"

text \<open>
  Modelled from the spec: \<^verbatim>\<open>str(window)\<close> is defined in the window module. The spec's
  format of a window in an output record is \<^verbatim>\<open>[<start>, <end>)\<close>.
\<close>

fun str_window :: "window \<Rightarrow> string" where
  "str_window GlobalWindow = ''GlobalWindow''"
| "str_window (IntervalWindow s e) = ''['' @ str_float s @ '', '' @ str_float e @ '')''"

text \<open>
Python's \<^verbatim>\<open>sep.join(strings)\<close>.
\<close>

fun join :: "string \<Rightarrow> string list \<Rightarrow> string" where
  "join sep [] = []"
| "join sep [x] = x"
| "join sep (x # y # ys) = x @ sep @ join sep (y # ys)"

text \<open>
  Modelled from the spec: \<^verbatim>\<open>ParDo\<close>, \<^verbatim>\<open>Filter\<close> and \<^verbatim>\<open>Create\<close> are transforms of
  the core module, which is not among the sources. A \<^verbatim>\<open>DoFn\<close> yields plain values or
  \<^verbatim>\<open>TimestampedValue\<close>s; \<^verbatim>\<open>ParDo\<close> calls \<^verbatim>\<open>process\<close> on every element in turn and
  gives each output the windows of its input and the input's timestamp, or the
  timestamp of the \<^verbatim>\<open>TimestampedValue\<close>. An exception in \<^verbatim>\<open>process\<close> ends the run.
  \<^verbatim>\<open>Filter\<close> keeps the elements whose value satisfies the predicate. \<^verbatim>\<open>Create\<close> puts
  the given values into the global window, at a timestamp \<open>t0\<close> of the runner's choice.
\<close>

datatype 'v do_output = Plain 'v | TimestampedValue 'v rat

fun emit :: "'a wvalue \<Rightarrow> 'b do_output \<Rightarrow> 'b wvalue" where
  "emit x (Plain v) = WindowedValue v (wv_timestamp x) (wv_windows x)"
| "emit x (TimestampedValue v t) = WindowedValue v t (wv_windows x)"

fun ParDo :: "('a wvalue \<Rightarrow> error + 'b do_output list) \<Rightarrow> 'a wvalue list \<Rightarrow> error + 'b wvalue list" where
  "ParDo process [] = Inr []"
| "ParDo process (x # xs) =
     (case process x of
        Inl e \<Rightarrow> Inl e
      | Inr outs \<Rightarrow>
          (case ParDo process xs of
             Inl e \<Rightarrow> Inl e
           | Inr rest \<Rightarrow> Inr (map (emit x) outs @ rest)))"

definition Filter :: "('a \<Rightarrow> bool) \<Rightarrow> 'a wvalue list \<Rightarrow> 'a wvalue list" where
  "Filter pred xs = filter (\<lambda>x. pred (wv_value x)) xs"

definition Create :: "rat \<Rightarrow> 'a list \<Rightarrow> 'a wvalue list" where
  "Create t0 vs = map (\<lambda>v. WindowedValue v t0 [GlobalWindow]) vs"

text \<open>
  Modelled from the spec: the window functions are defined in the window module. A
  session window of an element spans \<open>[timestamp, timestamp + gap)\<close>. Fixed windows are
  equal-length intervals aligned to the origin, and a timestamp lies in exactly one:
  \<open>start = timestamp - timestamp mod size\<close>, with Python's \<^verbatim>\<open>%\<close> on floats.
  \<^verbatim>\<open>WindowInto\<close> discards the windows an element had and keeps its timestamp.
\<close>

datatype windowfn = Sessions rat | FixedWindows rat

definition fmod :: "rat \<Rightarrow> rat \<Rightarrow> rat" where
  "fmod a b = a - b * of_int \<lfloor>a / b\<rfloor>"

fun assign :: "windowfn \<Rightarrow> rat \<Rightarrow> window list" where
  "assign (Sessions gap_size) t = [IntervalWindow t (t + gap_size)]"
| "assign (FixedWindows sz) t =
     (let start = t - fmod t sz in [IntervalWindow start (start + sz)])"

definition WindowInto :: "windowfn \<Rightarrow> 'a wvalue list \<Rightarrow> 'a wvalue list" where
  "WindowInto fn xs = map (\<lambda>x. x\<lparr>wv_windows := assign fn (wv_timestamp x)\<rparr>) xs"

text \<open>
  Modelled from the spec: merging of session windows, as the spec words it: sort by start,
  sweep, union if the next start is less than the current end. \<open>final_window\<close> is the
  window an element is finally assigned to; only session windows merge.
\<close>

fun intervals :: "window list \<Rightarrow> (rat \<times> rat) list" where
  "intervals [] = []"
| "intervals (GlobalWindow # ws) = intervals ws"
| "intervals (IntervalWindow s e # ws) = (s, e) # intervals ws"

fun sweep :: "(rat \<times> rat) list \<Rightarrow> (rat \<times> rat) list" where
  "sweep [] = []"
| "sweep [w] = [w]"
| "sweep ((s1, e1) # (s2, e2) # ws) =
     (if s2 < e1 then sweep ((s1, max e1 e2) # ws)
      else (s1, e1) # sweep ((s2, e2) # ws))"

definition merge_sessions :: "(rat \<times> rat) list \<Rightarrow> (rat \<times> rat) list" where
  "merge_sessions ws = sweep (sort_key fst ws)"

fun final_window :: "windowfn \<Rightarrow> window list \<Rightarrow> window \<Rightarrow> window" where
  "final_window (Sessions gap_size) ws (IntervalWindow s e) =
     (case find (\<lambda>(ms, me). ms \<le> s \<and> e \<le> me) (merge_sessions (intervals ws)) of
        Some (ms, me) \<Rightarrow> IntervalWindow ms me
      | None \<Rightarrow> IntervalWindow s e)"
| "final_window fn ws w = w"

text \<open>
  Modelled from the spec: grouping operates per final window. \<open>group_by_window\<close> lists
  the final windows of a group of elements, each with the values assigned to it.
\<close>

definition group_by_window :: "windowfn \<Rightarrow> 'a wvalue list \<Rightarrow> (window \<times> 'a list) list" where
  "group_by_window fn xs =
     (let ws = concat (map wv_windows xs)
      in map (\<lambda>m. (m, concat (map (\<lambda>x. map (\<lambda>w. wv_value x)
                        (filter (\<lambda>w. final_window fn ws w = m) (wv_windows x))) xs)))
           (remdups (map (final_window fn ws) ws)))"

text \<open>
  Modelled from the spec: \<^verbatim>\<open>combiners.Count.PerElement\<close> and
  \<^verbatim>\<open>CombineGlobally(...).without_defaults()\<close> are not among the sources. The first
  counts, per distinct element and per final window, the occurrences of the element;
  the second folds the values of every non-empty window through the combiner and emits
  one result per window, nothing for an empty one. The spec does not say which
  timestamp an output of a grouping carries: \<open>out_ts\<close>, a function of the window, is a
  parameter.
\<close>

definition Count_PerElement ::
  "windowfn \<Rightarrow> (window \<Rightarrow> rat) \<Rightarrow> 'a wvalue list \<Rightarrow> ('a \<times> nat) wvalue list" where
  "Count_PerElement fn out_ts xs =
     concat (map (\<lambda>k. map (\<lambda>(m, vs). WindowedValue (k, length vs) (out_ts m) [m])
                    (group_by_window fn (filter (\<lambda>x. wv_value x = k) xs)))
       (remdups (map wv_value xs)))"

definition CombineGlobally_without_defaults ::
  "nat \<Rightarrow> ('a \<Rightarrow> 'a \<Rightarrow> bool) \<Rightarrow> windowfn \<Rightarrow> (window \<Rightarrow> rat) \<Rightarrow> 'a wvalue list \<Rightarrow>
   'a list wvalue list" where
  "CombineGlobally_without_defaults n lt fn out_ts xs =
     map (\<lambda>(m, vs).
            WindowedValue (extract_output (foldl (add_input lt n) create_accumulator vs))
              (out_ts m) [m])
       (group_by_window fn xs)"

text \<open>
  top_wikipedia_sessions.py. A row of the edit table after \<^verbatim>\<open>json.loads\<close>: the two keys
  the pipeline reads, each present or absent.
\<close>

record table_row =
  timestamp :: "rat option"
  contributor_username :: "string option"

definition ONE_HOUR_IN_SECONDS :: rat where
  "ONE_HOUR_IN_SECONDS = 3600"

definition THIRTY_DAYS_IN_SECONDS :: rat where
  "THIRTY_DAYS_IN_SECONDS = 30 * 24 * ONE_HOUR_IN_SECONDS"

text \<open>
Python's \<^verbatim>\<open>sys.maxint\<close> on a 64-bit platform.
\<close>

definition maxint :: int where
  "maxint = 2 ^ 63 - 1"

text \<open>
  \<^verbatim>\<open>ExtractUserAndTimestampDoFn.process\<close>: a row without \<^verbatim>\<open>contributor_username\<close> yields
  nothing; a missing \<^verbatim>\<open>timestamp\<close> raises \<^verbatim>\<open>KeyError\<close>.
\<close>

definition ExtractUserAndTimestampDoFn_process ::
  "table_row wvalue \<Rightarrow> error + string do_output list" where
  "ExtractUserAndTimestampDoFn_process context =
     (let table_row = wv_value context in
      case contributor_username table_row of
        None \<Rightarrow> Inr []
      | Some user_name \<Rightarrow>
          (case timestamp table_row of
             None \<Rightarrow> Inl KeyError
           | Some t \<Rightarrow> Inr [TimestampedValue user_name t]))"

text \<open>
\<^verbatim>\<open>ComputeSessions.apply\<close> and \<^verbatim>\<open>TopPerMonth.apply\<close>.
\<close>

definition ComputeSessions ::
  "(window \<Rightarrow> rat) \<Rightarrow> string wvalue list \<Rightarrow> (string \<times> nat) wvalue list" where
  "ComputeSessions out_ts pcoll =
     Count_PerElement (Sessions ONE_HOUR_IN_SECONDS) out_ts
       (WindowInto (Sessions ONE_HOUR_IN_SECONDS) pcoll)"

definition TopPerMonth ::
  "(window \<Rightarrow> rat) \<Rightarrow> (string \<times> nat) wvalue list \<Rightarrow> (string \<times> nat) list wvalue list" where
  "TopPerMonth out_ts pcoll =
     CombineGlobally_without_defaults 10 (\<lambda>first second. snd first < snd second)
       (FixedWindows THIRTY_DAYS_IN_SECONDS) out_ts
       (WindowInto (FixedWindows THIRTY_DAYS_IN_SECONDS) pcoll)"

text \<open>
\<^verbatim>\<open>SessionsToStringsDoFn.process\<close> and \<^verbatim>\<open>FormatOutputDoFn.process\<close>.
\<close>

definition SessionsToStringsDoFn_process ::
  "(string \<times> nat) wvalue \<Rightarrow> error + (string \<times> nat) do_output list" where
  "SessionsToStringsDoFn_process context =
     Inr [Plain (fst (wv_value context) @ '' : '' @
                 join '', '' (map str_window (wv_windows context)),
                 snd (wv_value context))]"

definition FormatOutputDoFn_process ::
  "(string \<times> nat) list wvalue \<Rightarrow> error + string do_output list" where
  "FormatOutputDoFn_process context =
     Inr (map (\<lambda>kv. Plain (fst kv @ '' : '' @ str_nat (snd kv) @ '' : '' @
                            join '', '' (map str_window (wv_windows context))))
            (wv_value context))"

text \<open>
  \<^verbatim>\<open>ComputeTopSessions.apply\<close>. Python's \<^verbatim>\<open>hash\<close> is a parameter; the sampling filter
  keeps \<open>x\<close> when \<^verbatim>\<open>abs(hash(x)) <= sys.maxint * sampling_threshold\<close>.
\<close>

definition ComputeTopSessions ::
  "(string \<Rightarrow> int) \<Rightarrow> (window \<Rightarrow> rat) \<Rightarrow> rat \<Rightarrow> table_row wvalue list \<Rightarrow>
   error + string wvalue list" where
  "ComputeTopSessions hash out_ts sampling_threshold pcoll =
     (case ParDo ExtractUserAndTimestampDoFn_process pcoll of
        Inl e \<Rightarrow> Inl e
      | Inr extracted \<Rightarrow>
          (case ParDo SessionsToStringsDoFn_process
                  (ComputeSessions out_ts
                     (Filter (\<lambda>x. of_int \<bar>hash x\<bar> \<le> of_int maxint * sampling_threshold)
                        extracted)) of
             Inl e \<Rightarrow> Inl e
           | Inr strings \<Rightarrow> ParDo FormatOutputDoFn_process (TopPerMonth out_ts strings)))"

text \<open>
top_wikipedia_sessions_test.py: the nine edits of \<^verbatim>\<open>ComputeTopSessionsTest.EDITS\<close>.
\<close>

definition edit :: "rat \<Rightarrow> string \<Rightarrow> table_row" where
  "edit t u = \<lparr>timestamp = Some t, contributor_username = Some u\<rparr>"

definition EDITS :: "table_row list" where
  "EDITS =
     [edit 0 ''user1'', edit (1 / 1000) ''user1'', edit (2 / 1000) ''user1'',
      edit 0 ''user2'', edit (1 / 1000) ''user2'', edit (3601 / 1000) ''user2'',
      edit (3602 / 1000) ''user2'', edit (2 * 3600) ''user2'',
      edit (35 * 24 * (36 / 10)) ''user3'']"

text \<open>
A choice of \<open>out_ts\<close>: every output of a grouping is stamped with the end of its window.
\<close>

fun w_end :: "window \<Rightarrow> rat" where
  "w_end GlobalWindow = 0"
| "w_end (IntervalWindow s e) = e"

section \<open>Lookups in a DoOutputsTuple\<close>

subsection \<open>Basic facts about a lookup\<close>

lemma getitem_raises_iff:
  "getitem s t = Inl e \<longleftrightarrow>
     e = ValueError \<and> coerce_tag t \<noteq> main_tag s \<and> tags_truthy (tags s) \<and>
     \<not> tags_contain (tags s) (coerce_tag t)"
  by (auto simp: getitem_def Let_def split: option.splits)

lemma getitem_hit:
  assumes "pcolls s (cache_key s t) = Some p"
    and "\<not> (coerce_tag t \<noteq> main_tag s \<and> tags_truthy (tags s) \<and>
            \<not> tags_contain (tags s) (coerce_tag t))"
  shows "getitem s t = Inr (p, s)"
  using assms by (auto simp: getitem_def cache_key_def Let_def)

lemma getitem_miss:
  assumes "pcolls s (cache_key s t) = None"
    and "\<not> (coerce_tag t \<noteq> main_tag s \<and> tags_truthy (tags s) \<and>
            \<not> tags_contain (tags s) (coerce_tag t))"
  shows "getitem s t =
     Inr (length (pvalues s),
          s\<lparr>side_output_tags :=
               (if cache_key s t \<noteq> NoneTag then insert (cache_key s t) (side_output_tags s)
                else side_output_tags s),
            pvalues := pvalues s @ [\<lparr>pc_tag = cache_key s t, pc_producer = producer s\<rparr>],
            pcolls := (pcolls s)(cache_key s t \<mapsto> length (pvalues s))\<rparr>)"
  using assms by (auto simp: getitem_def cache_key_def Let_def)

lemma getitem_returns:
  assumes "getitem s t = Inr (p, s')"
  shows "pcolls s' (cache_key s t) = Some p"
    and "tags s' = tags s" and "main_tag s' = main_tag s" and "producer s' = producer s"
    and "pcolls s k = Some q \<Longrightarrow> pcolls s' k = Some q"
    and "cache_key s' = cache_key s"
proof -
  have ok: "\<not> (coerce_tag t \<noteq> main_tag s \<and> tags_truthy (tags s) \<and>
            \<not> tags_contain (tags s) (coerce_tag t))"
    using assms getitem_raises_iff [of s t ValueError] by auto
  show "pcolls s' (cache_key s t) = Some p"
    using assms getitem_hit [OF _ ok] getitem_miss [OF _ ok]
    by (cases "pcolls s (cache_key s t)") auto
  show "tags s' = tags s"
    using assms getitem_hit [OF _ ok] getitem_miss [OF _ ok]
    by (cases "pcolls s (cache_key s t)") auto
  show m: "main_tag s' = main_tag s"
    using assms getitem_hit [OF _ ok] getitem_miss [OF _ ok]
    by (cases "pcolls s (cache_key s t)") auto
  show "producer s' = producer s"
    using assms getitem_hit [OF _ ok] getitem_miss [OF _ ok]
    by (cases "pcolls s (cache_key s t)") auto
  show "pcolls s k = Some q \<Longrightarrow> pcolls s' k = Some q"
    using assms getitem_hit [OF _ ok] getitem_miss [OF _ ok]
    by (cases "pcolls s (cache_key s t)") auto
  show "cache_key s' = cache_key s"
    using m by (auto simp: cache_key_def fun_eq_iff)
qed

lemma getitem_again:
  assumes "getitem s t = Inr (p, s')"
  shows "getitem s' t = Inr (p, s')"
proof -
  have ok: "\<not> (coerce_tag t \<noteq> main_tag s' \<and> tags_truthy (tags s') \<and>
            \<not> tags_contain (tags s') (coerce_tag t))"
    using assms getitem_raises_iff [of s t ValueError] getitem_returns(2,3) [OF assms]
    by auto
  have "pcolls s' (cache_key s' t) = Some p"
    using getitem_returns(1,6) [OF assms] by simp
  then show ?thesis using ok by (rule getitem_hit)
qed

lemma getitem_cache_ok:
  assumes "getitem s t = Inr (p, s')" and "cache_ok s"
  shows "cache_ok s'"
proof -
  have ok: "\<not> (coerce_tag t \<noteq> main_tag s \<and> tags_truthy (tags s) \<and>
            \<not> tags_contain (tags s) (coerce_tag t))"
    using assms(1) getitem_raises_iff [of s t ValueError] by auto
  show ?thesis
  proof (cases "pcolls s (cache_key s t)")
    case (Some q)
    then show ?thesis using assms getitem_hit [OF Some ok] by simp
  next
    case None
    have bound: "\<And>k q. pcolls s k = Some q \<Longrightarrow> q < length (pvalues s)"
      using assms(2) by (auto simp: cache_ok_def)
    have inj: "\<And>k k' q. pcolls s k = Some q \<Longrightarrow> pcolls s k' = Some q \<Longrightarrow> k = k'"
      using assms(2) unfolding cache_ok_def by blast
    have s': "pcolls s' = (pcolls s)(cache_key s t \<mapsto> length (pvalues s))"
      "length (pvalues s') = Suc (length (pvalues s))"
      using assms(1) getitem_miss [OF None ok] by auto
    show ?thesis
      unfolding cache_ok_def s'
      using bound inj by (auto split: if_splits dest: bound simp: less_Suc_eq)
  qed
qed

lemma run_lookups_cache_ok: "cache_ok s \<Longrightarrow> cache_ok (run_lookups s ts)"
proof (induction ts arbitrary: s)
  case Nil
  then show ?case by simp
next
  case (Cons t ts)
  show ?case
  proof (cases "getitem s t")
    case (Inl e)
    then show ?thesis using Cons by simp
  next
    case (Inr r)
    then obtain p s' where r: "getitem s t = Inr (p, s')" by (cases r) auto
    then show ?thesis using Cons getitem_cache_ok [OF r] by simp
  qed
qed

lemma run_lookups_keeps:
  "tags (run_lookups s ts) = tags s \<and> main_tag (run_lookups s ts) = main_tag s \<and>
   (pcolls s k = Some q \<longrightarrow> pcolls (run_lookups s ts) k = Some q)"
proof (induction ts arbitrary: s)
  case Nil
  then show ?case by simp
next
  case (Cons t ts)
  show ?case
  proof (cases "getitem s t")
    case (Inl e)
    then show ?thesis using Cons [of s] by simp
  next
    case (Inr r)
    then obtain p s' where r: "getitem s t = Inr (p, s')" by (cases r) auto
    show ?thesis
      using Cons [of s'] getitem_returns(2,3,5) [OF r] r by simp
  qed
qed

lemma DoOutputsTuple_cache_ok: "cache_ok (DoOutputsTuple pv tt ts m)"
  by (simp add: cache_ok_def DoOutputsTuple_def)

section \<open>Undeclared tags\<close>

text \<open>
  C3, as stated, at a tuple built with no declared side tags: the tag \<^verbatim>\<open>'c'\<close> is
  neither the main tag nor a declared tag, and the lookup returns a new PCollection
  instead of raising.
\<close>

theorem getitem_undeclared_counterexample:
  "StrTag ''c'' \<noteq> main_tag (DoOutputsTuple [] {} (Some []) NoneTag) \<and>
   \<not> tags_contain (tags (DoOutputsTuple [] {} (Some []) NoneTag)) (StrTag ''c'') \<and>
   getitem (DoOutputsTuple [] {} (Some []) NoneTag) (StrTag ''c'') =
     Inr (0, \<lparr>tags = Some [], main_tag = NoneTag, producer = None,
              pcolls = [StrTag ''c'' \<mapsto> 0], side_output_tags = {StrTag ''c''},
              pvalues = [\<lparr>pc_tag = StrTag ''c'', pc_producer = None\<rparr>]\<rparr>)"
  by (simp add: getitem_def DoOutputsTuple_def tags_contain_def tags_truthy_def
      coerce_tag_def Let_def)

text \<open>
  C3, amended. For every tuple whose declared side tags are not empty and every tag
  whose coerced form (an int tag as its decimal string) is neither the main tag nor a
  declared side tag, the lookup raises \<^verbatim>\<open>ValueError\<close>.
\<close>

theorem getitem_undeclared_raises:
  assumes "tags_truthy (tags s)"
    and "coerce_tag t \<noteq> main_tag s"
    and "\<not> tags_contain (tags s) (coerce_tag t)"
  shows "getitem s t = Inl ValueError"
  using assms by (simp add: getitem_raises_iff)

theorem getitem_undeclared_raises_witness:
  "tags_truthy (tags (DoOutputsTuple [] {} (Some [StrTag ''a'', StrTag ''b'']) NoneTag)) \<and>
   coerce_tag (StrTag ''c'') \<noteq>
     main_tag (DoOutputsTuple [] {} (Some [StrTag ''a'', StrTag ''b'']) NoneTag) \<and>
   \<not> tags_contain (tags (DoOutputsTuple [] {} (Some [StrTag ''a'', StrTag ''b'']) NoneTag))
       (coerce_tag (StrTag ''c'')) \<and>
   getitem (DoOutputsTuple [] {} (Some [StrTag ''a'', StrTag ''b'']) NoneTag) (StrTag ''c'') =
     Inl ValueError"
  using getitem_undeclared_raises
    [of "DoOutputsTuple [] {} (Some [StrTag ''a'', StrTag ''b'']) NoneTag" "StrTag ''c''"]
  by (simp add: DoOutputsTuple_def tags_contain_def tags_truthy_def coerce_tag_def)

section \<open>No declared side tags\<close>

text \<open>
  C9. When the declared side tags are empty or \<^verbatim>\<open>None\<close>, the lookup of any tag
  returns a PCollection and never raises. The PCollection is cached under the tag's key.
  If the key was not cached before, the PCollection is a new object appended to the
  pipeline's values, and the tag (in its coerced form) is added to the transform's
  \<^verbatim>\<open>side_output_tags\<close> unless it designates the main output (it is the main tag or
  \<^verbatim>\<open>None\<close>); if the key was cached, the cached object is returned and nothing
  changes.
\<close>

theorem getitem_no_declared_tags:
  assumes "tags s = None \<or> tags s = Some []"
  shows "\<exists>p s'. getitem s t = Inr (p, s') \<and>
     pcolls s' (cache_key s t) = Some p \<and>
     (case pcolls s (cache_key s t) of
        Some q \<Rightarrow> p = q \<and> s' = s
      | None \<Rightarrow>
          p = length (pvalues s) \<and>
          pvalues s' = pvalues s @ [\<lparr>pc_tag = cache_key s t, pc_producer = producer s\<rparr>] \<and>
          side_output_tags s' =
            (if coerce_tag t = main_tag s \<or> coerce_tag t = NoneTag then side_output_tags s
             else insert (coerce_tag t) (side_output_tags s)))"
proof -
  have ok: "\<not> (coerce_tag t \<noteq> main_tag s \<and> tags_truthy (tags s) \<and>
            \<not> tags_contain (tags s) (coerce_tag t))"
    using assms by (auto simp: tags_truthy_def)
  show ?thesis
  proof (cases "pcolls s (cache_key s t)")
    case None
    show ?thesis
      using getitem_miss [OF None ok] None by (auto simp: cache_key_def)
  next
    case (Some q)
    show ?thesis
      using getitem_hit [OF Some ok] Some by simp
  qed
qed

theorem getitem_no_declared_tags_witness:
  "(tags (DoOutputsTuple [] {} (Some []) (StrTag ''main'')) = None \<or>
    tags (DoOutputsTuple [] {} (Some []) (StrTag ''main'')) = Some []) \<and>
   (\<exists>p s'. getitem (DoOutputsTuple [] {} (Some []) (StrTag ''main'')) (StrTag ''x'') =
       Inr (p, s') \<and> p = 0 \<and> side_output_tags s' = {StrTag ''x''} \<and>
       pvalues s' = [\<lparr>pc_tag = StrTag ''x'', pc_producer = None\<rparr>] \<and>
       pcolls s' (StrTag ''x'') = Some 0)"
  using getitem_no_declared_tags
    [of "DoOutputsTuple [] {} (Some []) (StrTag ''main'')" "StrTag ''x''"]
  by (auto simp: DoOutputsTuple_def cache_key_def coerce_tag_def)

section \<open>One PCollection per tag\<close>

text \<open>
  C5. A lookup that returns a PCollection has cached it under the tag's key and has
  created at most one object. Every later lookup of that tag, after any number of other
  lookups on the tuple, returns the same object and creates nothing. And on a tuple built with the declared side tags \<open>a\<close> and \<open>b\<close> (two
  different strings) and a main tag different from both (a string or \<^verbatim>\<open>None\<close>),
  whatever was looked up before, the lookups of \<open>a\<close>, of \<open>b\<close> and of the main tag return
  three different objects.
\<close>

theorem getitem_one_pcollection_per_tag:
  assumes "getitem s t = Inr (p, s1)"
    and "a \<noteq> b" and "m \<noteq> StrTag a" and "m \<noteq> StrTag b" and "coerce_tag m = m"
    and "u = run_lookups (DoOutputsTuple pv tt (Some [StrTag a, StrTag b]) m) ts'"
  shows "pcolls s1 (cache_key s t) = Some p \<and>
     length (pvalues s1) \<le> Suc (length (pvalues s)) \<and>
     getitem (run_lookups s1 ts) t = Inr (p, run_lookups s1 ts) \<and>
     (\<exists>pa pb pm ua ub um.
        getitem u (StrTag a) = Inr (pa, ua) \<and> getitem ua (StrTag b) = Inr (pb, ub) \<and>
        getitem ub m = Inr (pm, um) \<and> pa \<noteq> pb \<and> pa \<noteq> pm \<and> pb \<noteq> pm)"
proof (intro conjI)
  show "pcolls s1 (cache_key s t) = Some p"
    by (rule getitem_returns(1) [OF assms(1)])
next
  have ok: "\<not> (coerce_tag t \<noteq> main_tag s \<and> tags_truthy (tags s) \<and>
            \<not> tags_contain (tags s) (coerce_tag t))"
    using assms(1) getitem_raises_iff [of s t ValueError] by auto
  show "length (pvalues s1) \<le> Suc (length (pvalues s))"
    using assms(1) getitem_hit [OF _ ok] getitem_miss [OF _ ok]
    by (cases "pcolls s (cache_key s t)") auto
next
  let ?r = "run_lookups s1 ts"
  have same: "tags ?r = tags s" "main_tag ?r = main_tag s"
    using run_lookups_keeps [of s1 ts] getitem_returns(2,3) [OF assms(1)] by auto
  have ok: "\<not> (coerce_tag t \<noteq> main_tag ?r \<and> tags_truthy (tags ?r) \<and>
            \<not> tags_contain (tags ?r) (coerce_tag t))"
    using assms(1) getitem_raises_iff [of s t ValueError] same by auto
  have "pcolls s1 (cache_key s t) = Some p"
    by (rule getitem_returns(1) [OF assms(1)])
  then have "pcolls ?r (cache_key s t) = Some p"
    using run_lookups_keeps [of s1 ts "cache_key s t" p] by simp
  moreover have "cache_key ?r t = cache_key s t"
    using same by (simp add: cache_key_def)
  ultimately have "pcolls ?r (cache_key ?r t) = Some p" by simp
  then show "getitem ?r t = Inr (p, ?r)" using ok by (rule getitem_hit)
next
  let ?d = "DoOutputsTuple pv tt (Some [StrTag a, StrTag b]) m"
  have u: "tags u = Some [StrTag a, StrTag b]" "main_tag u = m" "cache_ok u"
    using run_lookups_keeps [of ?d ts'] run_lookups_cache_ok [OF DoOutputsTuple_cache_ok]
      assms(6)
    by (auto simp: DoOutputsTuple_def)
  have "\<not> (\<exists>e. getitem u (StrTag a) = Inl e)"
    using u by (simp add: getitem_raises_iff tags_contain_def coerce_tag_def)
  then obtain pa ua where a: "getitem u (StrTag a) = Inr (pa, ua)"
    by (cases "getitem u (StrTag a)") auto
  have ua: "tags ua = Some [StrTag a, StrTag b]" "main_tag ua = m" "cache_ok ua"
    "pcolls ua (StrTag a) = Some pa"
    using getitem_returns(1,2,3) [OF a] getitem_cache_ok [OF a] u assms(3)
    by (auto simp: cache_key_def coerce_tag_def)
  have "\<not> (\<exists>e. getitem ua (StrTag b) = Inl e)"
    using ua by (simp add: getitem_raises_iff tags_contain_def coerce_tag_def)
  then obtain pb ub where b: "getitem ua (StrTag b) = Inr (pb, ub)"
    by (cases "getitem ua (StrTag b)") auto
  have ub: "tags ub = Some [StrTag a, StrTag b]" "main_tag ub = m" "cache_ok ub"
    "pcolls ub (StrTag a) = Some pa" "pcolls ub (StrTag b) = Some pb"
    using getitem_returns(1,2,3) [OF b] getitem_returns(5) [OF b, of "StrTag a" pa]
      getitem_cache_ok [OF b] ua assms(4)
    by (auto simp: cache_key_def coerce_tag_def)
  have "\<not> (\<exists>e. getitem ub m = Inl e)"
    using ub assms(5) by (simp add: getitem_raises_iff)
  then obtain pm um where m: "getitem ub m = Inr (pm, um)"
    by (cases "getitem ub m") auto
  have um: "cache_ok um" "pcolls um (StrTag a) = Some pa" "pcolls um (StrTag b) = Some pb"
    "pcolls um NoneTag = Some pm"
    using getitem_returns(1) [OF m] getitem_returns(5) [OF m, of "StrTag a" pa]
      getitem_returns(5) [OF m, of "StrTag b" pb] getitem_cache_ok [OF m] ub assms(5)
    by (auto simp: cache_key_def)
  have inj: "\<And>k k' q. pcolls um k = Some q \<Longrightarrow> pcolls um k' = Some q \<Longrightarrow> k = k'"
    using um(1) unfolding cache_ok_def by blast
  have "pa \<noteq> pb" using inj [of "StrTag a" pa "StrTag b"] um assms(2) by auto
  moreover have "pa \<noteq> pm" using inj [of "StrTag a" pa NoneTag] um by auto
  moreover have "pb \<noteq> pm" using inj [of "StrTag b" pb NoneTag] um by auto
  ultimately show "\<exists>pa pb pm ua ub um.
        getitem u (StrTag a) = Inr (pa, ua) \<and> getitem ua (StrTag b) = Inr (pb, ub) \<and>
        getitem ub m = Inr (pm, um) \<and> pa \<noteq> pb \<and> pa \<noteq> pm \<and> pb \<noteq> pm"
    using a b m by blast
qed

theorem getitem_one_pcollection_per_tag_witness:
  "getitem (DoOutputsTuple [] {} (Some [StrTag ''a'', StrTag ''b'']) NoneTag) (StrTag ''a'') =
     Inr (0, \<lparr>tags = Some [StrTag ''a'', StrTag ''b''], main_tag = NoneTag, producer = None,
              pcolls = [StrTag ''a'' \<mapsto> 0], side_output_tags = {StrTag ''a''},
              pvalues = [\<lparr>pc_tag = StrTag ''a'', pc_producer = None\<rparr>]\<rparr>) \<and>
   ''a'' \<noteq> ''b'' \<and> NoneTag \<noteq> StrTag ''a'' \<and> NoneTag \<noteq> StrTag ''b'' \<and>
   coerce_tag NoneTag = NoneTag \<and>
   pcolls \<lparr>tags = Some [StrTag ''a'', StrTag ''b''], main_tag = NoneTag, producer = None,
         pcolls = [StrTag ''a'' \<mapsto> 0], side_output_tags = {StrTag ''a''},
         pvalues = [\<lparr>pc_tag = StrTag ''a'', pc_producer = None\<rparr>]\<rparr>
     (cache_key (DoOutputsTuple [] {} (Some [StrTag ''a'', StrTag ''b'']) NoneTag) (StrTag ''a'')) =
     Some 0 \<and>
   getitem
     (run_lookups
        \<lparr>tags = Some [StrTag ''a'', StrTag ''b''], main_tag = NoneTag, producer = None,
         pcolls = [StrTag ''a'' \<mapsto> 0], side_output_tags = {StrTag ''a''},
         pvalues = [\<lparr>pc_tag = StrTag ''a'', pc_producer = None\<rparr>]\<rparr> [StrTag ''b''])
     (StrTag ''a'') =
     Inr (0, run_lookups
        \<lparr>tags = Some [StrTag ''a'', StrTag ''b''], main_tag = NoneTag, producer = None,
         pcolls = [StrTag ''a'' \<mapsto> 0], side_output_tags = {StrTag ''a''},
         pvalues = [\<lparr>pc_tag = StrTag ''a'', pc_producer = None\<rparr>]\<rparr> [StrTag ''b'']) \<and>
   (\<exists>pa pb pm ua ub um.
      getitem (run_lookups (DoOutputsTuple [] {} (Some [StrTag ''a'', StrTag ''b'']) NoneTag) [])
        (StrTag ''a'') = Inr (pa, ua) \<and>
      getitem ua (StrTag ''b'') = Inr (pb, ub) \<and> getitem ub NoneTag = Inr (pm, um) \<and>
      pa \<noteq> pb \<and> pa \<noteq> pm \<and> pb \<noteq> pm)"
proof -
  have h: "getitem (DoOutputsTuple [] {} (Some [StrTag ''a'', StrTag ''b'']) NoneTag)
      (StrTag ''a'') =
     Inr (0, \<lparr>tags = Some [StrTag ''a'', StrTag ''b''], main_tag = NoneTag, producer = None,
              pcolls = [StrTag ''a'' \<mapsto> 0], side_output_tags = {StrTag ''a''},
              pvalues = [\<lparr>pc_tag = StrTag ''a'', pc_producer = None\<rparr>]\<rparr>)"
    by (simp add: getitem_def DoOutputsTuple_def tags_contain_def tags_truthy_def
        coerce_tag_def Let_def)
  have c: "coerce_tag NoneTag = NoneTag" by (simp add: coerce_tag_def)
  show ?thesis
    using h c getitem_one_pcollection_per_tag
      [OF h, where a = "''a''" and b = "''b''" and m = NoneTag and pv = "[]" and tt = "{}"
        and ts' = "[]" and ts = "[StrTag ''b'']"
        and u = "run_lookups (DoOutputsTuple [] {} (Some [StrTag ''a'', StrTag ''b'']) NoneTag) []"]
    by simp
qed

section \<open>Integer tags\<close>

text \<open>
  C6. For every tuple and every integer \<open>i\<close>, looking up the integer tag \<open>i\<close> has the
  same outcome as looking up the string tag \<^verbatim>\<open>str(i)\<close>: the same PCollection
  reference and the same resulting state, or the same error.
\<close>

theorem getitem_int_tag_is_str_tag:
  "getitem s (IntTag i) = getitem s (StrTag (str_int i))"
  by (simp add: getitem_def coerce_tag_def)

section \<open>Materializing without a runner\<close>

text \<open>
  C8. Materializing a PCollection when no runner is passed and no runner is bound to
  the pipeline raises \<^verbatim>\<open>RunnerError\<close>, and the pipeline is left as it was: neither
  \<^verbatim>\<open>run\<close> nor \<^verbatim>\<open>get_pvalue\<close> has any effect, whatever they are.
\<close>

theorem get_values_no_runner:
  assumes "runner p = None"
  shows "get_internal run get_pvalue p self None = (Inl RunnerError, p) \<and>
     get_values run get_pvalue p self = (Inl RunnerError, p)"
  using assms by (simp add: get_values_def get_internal_def)

theorem get_values_no_runner_witness:
  "runner \<lparr>runner = (None :: nat option)\<rparr> = None \<and>
   get_internal (\<lambda>r p n. (Some ValueError, p))
     (\<lambda>r p n. Inr [\<lparr>wv_value = PyInt 1, wv_timestamp = 0, wv_windows = [()]\<rparr>])
     \<lparr>runner = (None :: nat option)\<rparr> 0 None = (Inl RunnerError, \<lparr>runner = None\<rparr>) \<and>
   get_values (\<lambda>r p n. (Some ValueError, p))
     (\<lambda>r p n. Inr [\<lparr>wv_value = PyInt 1, wv_timestamp = 0, wv_windows = [()]\<rparr>])
     \<lparr>runner = (None :: nat option)\<rparr> 0 = (Inl RunnerError, \<lparr>runner = None\<rparr>)"
  using get_values_no_runner
    [of "\<lparr>runner = (None :: nat option)\<rparr>" "\<lambda>r p n. (Some ValueError, p)"
      "\<lambda>r p n. Inr [\<lparr>wv_value = PyInt 1, wv_timestamp = 0, wv_windows = [()]\<rparr>]" 0]
  by simp

section \<open>Singleton side inputs over an empty source\<close>

text \<open>
  C4. Resolving an \<^verbatim>\<open>AsSingleton\<close> over an empty source raises nothing: with a default
  it yields the default (with \<^verbatim>\<open>default_value=7\<close> it yields 7), without a default it
  yields \<^verbatim>\<open>EmptySideInput\<close>, which is different from every value.
\<close>

theorem resolve_singleton_empty:
  "resolve_side_input (AsSingleton_init pcoll (Some d)) [] = Inr (SideValue d) \<and>
   resolve_side_input (AsSingleton_init pcoll (Some (PyInt 7))) [] = Inr (SideValue (PyInt 7)) \<and>
   resolve_side_input (AsSingleton_init pcoll None) [] = Inr EmptySideInput \<and>
   (\<forall>v. EmptySideInput \<noteq> SideValue v)"
  by (simp add: AsSingleton_init_def)

text \<open>
  C10. An \<^verbatim>\<open>AsSingleton\<close> built without \<^verbatim>\<open>default_value\<close> holds \<^verbatim>\<open>_NO_DEFAULT\<close>, which
  is not \<^verbatim>\<open>None\<close>: built with \<^verbatim>\<open>default_value=None\<close> it holds \<^verbatim>\<open>None\<close> as the
  default, and an empty source resolves to \<^verbatim>\<open>None\<close>. An empty source resolves to
  \<^verbatim>\<open>EmptySideInput\<close> exactly when the argument was left out.
\<close>

theorem AsSingleton_no_default_is_not_None:
  "AsSingleton_init pcoll None = AsSingleton pcoll NO_DEFAULT \<and>
   AsSingleton_init pcoll (Some PyNone) = AsSingleton pcoll (Default PyNone) \<and>
   Default PyNone \<noteq> NO_DEFAULT \<and>
   resolve_side_input (AsSingleton_init pcoll (Some PyNone)) [] = Inr (SideValue PyNone) \<and>
   (resolve_side_input (AsSingleton_init pcoll default_arg) [] = Inr EmptySideInput
      \<longleftrightarrow> default_arg = None)"
  by (cases default_arg) (simp_all add: AsSingleton_init_def)

section \<open>AsList and AsDict\<close>

text \<open>
  C7. \<^verbatim>\<open>AsList(pcoll)\<close> applies the \<^verbatim>\<open>ToList\<close> transform to \<open>pcoll\<close> through the
  pipeline, once, and returns the \<^verbatim>\<open>AsSingleton\<close> marker that wraps the output of that
  application and holds no default; \<^verbatim>\<open>AsDict(pcoll)\<close> does the same with \<^verbatim>\<open>ToDict\<close>.
  The labels default to \<^verbatim>\<open>'AsList'\<close> and \<^verbatim>\<open>'AsDict'\<close>.
\<close>

theorem AsList_AsDict_are_singletons:
  assumes "apply (ToList (case l1 of None \<Rightarrow> ''AsList'' | Some l \<Rightarrow> l)) pcoll p = Inr (out1, p1)"
    and "apply (ToDict (case l2 of None \<Rightarrow> ''AsDict'' | Some l \<Rightarrow> l)) pcoll p = Inr (out2, p2)"
  shows "AsList apply pcoll l1 p = Inr (AsSingleton out1 NO_DEFAULT, p1) \<and>
     AsDict apply pcoll l2 p = Inr (AsSingleton out2 NO_DEFAULT, p2)"
  using assms by (simp add: AsList_def AsDict_def pvalue_or_def AsSingleton_init_def)

theorem AsList_AsDict_are_singletons_witness:
  "(\<lambda>t pc (p::nat). Inr (Suc pc, Suc p) :: error + (ref \<times> nat))
     (ToList (case None of None \<Rightarrow> ''AsList'' | Some l \<Rightarrow> l)) 3 0 = Inr (4, 1) \<and>
   (\<lambda>t pc (p::nat). Inr (Suc pc, Suc p) :: error + (ref \<times> nat))
     (ToDict (case Some ''d'' of None \<Rightarrow> ''AsDict'' | Some l \<Rightarrow> l)) 3 0 = Inr (4, 1) \<and>
   AsList (\<lambda>t pc (p::nat). Inr (Suc pc, Suc p)) 3 None 0 =
     Inr (AsSingleton 4 (NO_DEFAULT :: pyval default_value), 1) \<and>
   AsDict (\<lambda>t pc (p::nat). Inr (Suc pc, Suc p)) 3 (Some ''d'') 0 =
     Inr (AsSingleton 4 (NO_DEFAULT :: pyval default_value), 1)"
  using AsList_AsDict_are_singletons
    [of "\<lambda>t pc (p::nat). Inr (Suc pc, Suc p)" None 3 0 4 1 "Some ''d''" 4 1]
  by simp

section \<open>Top-N: merging shards in any order\<close>

subsection \<open>Sorting with a comparator\<close>

lemma mset_insort_desc: "mset (insort_desc lt x xs) = add_mset x (mset xs)"
  by (induction xs) auto

lemma mset_sort_desc: "mset (sort_desc lt xs) = mset xs"
  by (induction xs) (auto simp: mset_insort_desc)

lemma set_insort_desc: "set (insort_desc lt x xs) = insert x (set xs)"
  by (induction xs) auto

lemma set_sort_desc: "set (sort_desc lt xs) = set xs"
  by (induction xs) (auto simp: set_insort_desc)

lemma flat_elements: "mset (flat p) = elements p"
  by (induction p) auto

lemma take_insort_desc:
  "take n (insort_desc lt c (take n xs)) = take n (insort_desc lt c xs)"
proof (induction xs arbitrary: n)
  case Nil
  then show ?case by simp
next
  case (Cons y ys)
  show ?case
  proof (cases n)
    case 0
    then show ?thesis by simp
  next
    case (Suc k)
    then show ?thesis using Cons [of k] by (cases k) (auto simp: min_def)
  qed
qed

lemma desc_insort:
  assumes "irreflp lt" "transp lt" "totalp_on (insert x (set xs)) lt" "desc lt xs"
  shows "desc lt (insort_desc lt x xs)"
  using assms
proof (induction xs)
  case Nil
  then show ?case by simp
next
  case (Cons y ys)
  have tot: "totalp_on (insert x (set ys)) lt"
    using Cons.prems(3) by (auto simp: totalp_on_def)
  have asym: "\<And>a b. lt a b \<Longrightarrow> \<not> lt b a"
    using Cons.prems(1,2) by (meson irreflpD transpD)
  show ?case
  proof (cases "lt x y")
    case True
    have "desc lt (insort_desc lt x ys)" using Cons tot by simp
    moreover have "\<forall>z \<in> set (insort_desc lt x ys). \<not> lt y z"
      using Cons.prems(4) True asym by (auto simp: set_insort_desc)
    ultimately show ?thesis using True by simp
  next
    case False
    have "\<forall>z \<in> set ys. \<not> lt x z"
    proof
      fix z assume z: "z \<in> set ys"
      then have yz: "\<not> lt y z" using Cons.prems(4) by auto
      show "\<not> lt x z"
      proof
        assume xz: "lt x z"
        have "x \<noteq> y" using xz yz by auto
        then have "lt y x" using False Cons.prems(3) by (auto simp: totalp_on_def)
        then have "lt y z" using xz Cons.prems(2) by (meson transpD)
        then show False using yz by simp
      qed
    qed
    then show ?thesis using False Cons.prems(4) by simp
  qed
qed

lemma desc_sort:
  assumes "irreflp lt" "transp lt" "totalp_on (set xs) lt"
  shows "desc lt (sort_desc lt xs)"
  using assms
proof (induction xs)
  case Nil
  then show ?case by simp
next
  case (Cons x xs)
  have "totalp_on (set xs) lt" using Cons.prems(3) by (auto simp: totalp_on_def)
  then have "desc lt (sort_desc lt xs)" using Cons by simp
  moreover have "totalp_on (insert x (set (sort_desc lt xs))) lt"
    using Cons.prems(3) by (simp add: set_sort_desc)
  ultimately show ?case using Cons.prems(1,2) by (simp add: desc_insort)
qed

lemma desc_unique:
  assumes "totalp_on (set xs) lt" "desc lt xs" "desc lt ys" "mset xs = mset ys"
  shows "xs = ys"
  using assms
proof (induction xs arbitrary: ys)
  case Nil
  then show ?case by simp
next
  case (Cons x xs)
  then obtain y ys' where ys: "ys = y # ys'" by (cases ys) auto
  have sets: "set (x # xs) = set (y # ys')"
    using Cons.prems(4) ys by (metis mset_eq_setD)
  have "x = y"
  proof (rule ccontr)
    assume ne: "x \<noteq> y"
    then have "x \<in> set ys'" "y \<in> set xs" using sets by auto
    then have "\<not> lt y x" "\<not> lt x y" using Cons.prems(2,3) ys by auto
    moreover have "lt x y \<or> lt y x"
      using ne Cons.prems(1) sets by (auto simp: totalp_on_def)
    ultimately show False by auto
  qed
  moreover have "xs = ys'"
    using Cons.IH [of ys'] Cons.prems ys \<open>x = y\<close> by (auto simp: totalp_on_def)
  ultimately show ?case using ys by simp
qed

lemma sort_desc_mset_cong:
  assumes "irreflp lt" "transp lt" "totalp_on (set xs) lt" "mset xs = mset ys"
  shows "sort_desc lt xs = sort_desc lt ys"
proof -
  have s: "set xs = set ys" using assms(4) by (rule mset_eq_setD)
  show ?thesis
    using assms s
    by (intro desc_unique [of _ lt]) (simp_all add: desc_sort set_sort_desc mset_sort_desc)
qed

lemma sort_desc_sorted:
  assumes "irreflp lt" "transp lt" "totalp_on (set xs) lt" "desc lt xs"
  shows "sort_desc lt xs = xs"
  using assms
  by (intro desc_unique [of _ lt]) (simp_all add: desc_sort set_sort_desc mset_sort_desc)

lemma top_of_Cons: "top_of lt n (x # xs) = take n (insort_desc lt x (top_of lt n xs))"
  by (simp add: top_of_def take_insort_desc)

lemma top_of_idem:
  assumes "irreflp lt" "transp lt" "totalp_on (set xs) lt"
  shows "top_of lt n (top_of lt n xs) = top_of lt n xs"
proof -
  let ?t = "take n (sort_desc lt xs)"
  have "set ?t \<subseteq> set xs" using set_take_subset [of n "sort_desc lt xs"] by (simp add: set_sort_desc)
  then have "totalp_on (set ?t) lt" using assms(3) by (auto simp: totalp_on_def)
  moreover have "desc lt ?t" using desc_sort [OF assms] by simp
  ultimately have "sort_desc lt ?t = ?t" using assms(1,2) by (simp add: sort_desc_sorted)
  then show ?thesis by (simp add: top_of_def)
qed

lemma top_of_append_right:
  assumes "irreflp lt" "transp lt" "totalp_on (set xs) lt"
  shows "top_of lt n (ys @ top_of lt n xs) = top_of lt n (ys @ xs)"
proof (induction ys)
  case Nil
  show ?case using top_of_idem [OF assms] by simp
next
  case (Cons y ys)
  show ?case using Cons by (simp add: top_of_Cons)
qed

lemma set_top_of: "set (top_of lt n xs) \<subseteq> set xs"
  using set_take_subset [of n "sort_desc lt xs"] by (simp add: top_of_def set_sort_desc)

lemma top_of_mset_cong:
  assumes "irreflp lt" "transp lt" "totalp_on (set xs) lt" "mset xs = mset ys"
  shows "top_of lt n xs = top_of lt n ys"
  using sort_desc_mset_cong [OF assms] by (simp add: top_of_def)

lemma top_of_append_left:
  assumes "irreflp lt" "transp lt" "totalp_on (set xs \<union> set ys) lt"
  shows "top_of lt n (top_of lt n xs @ ys) = top_of lt n (xs @ ys)"
proof -
  have tx: "totalp_on (set xs) lt" using assms(3) by (auto simp: totalp_on_def)
  have "set (top_of lt n xs @ ys) \<subseteq> set xs \<union> set ys" using set_top_of [of lt n xs] by auto
  then have t1: "totalp_on (set (top_of lt n xs @ ys)) lt"
    using assms(3) by (auto simp: totalp_on_def)
  have t2: "totalp_on (set (xs @ ys)) lt" using assms(3) by simp
  have "top_of lt n (top_of lt n xs @ ys) = top_of lt n (ys @ top_of lt n xs)"
    using top_of_mset_cong [OF assms(1,2) t1, of "ys @ top_of lt n xs"] by simp
  also have "\<dots> = top_of lt n (ys @ xs)" by (rule top_of_append_right [OF assms(1,2) tx])
  also have "\<dots> = top_of lt n (xs @ ys)"
    using top_of_mset_cong [OF assms(1,2) t2, of "ys @ xs"] by simp
  finally show ?thesis .
qed

lemma foldl_add_input:
  assumes "irreflp lt" "transp lt" "totalp_on (set xs) lt"
  shows "foldl (add_input lt n) create_accumulator xs = top_of lt n xs"
  using assms(3)
proof (induction xs rule: rev_induct)
  case Nil
  then show ?case by (simp add: create_accumulator_def top_of_def)
next
  case (snoc x xs)
  have t: "totalp_on (set xs) lt" using snoc.prems by (auto simp: totalp_on_def)
  have t': "totalp_on (set xs \<union> set [x]) lt" using snoc.prems by simp
  have "foldl (add_input lt n) create_accumulator (xs @ [x]) =
      add_input lt n (top_of lt n xs) x"
    using snoc.IH [OF t] by simp
  also have "\<dots> = top_of lt n (top_of lt n xs @ [x])"
    by (simp add: add_input_def top_of_def)
  also have "\<dots> = top_of lt n (xs @ [x])"
    by (rule top_of_append_left [OF assms(1,2) t'])
  finally show ?case .
qed

lemma run_plan_top_of:
  assumes "irreflp lt" "transp lt" "totalp_on (set (flat p)) lt"
  shows "run_plan lt n p = top_of lt n (flat p)"
  using assms(3)
proof (induction p)
  case (Shard xs)
  then show ?case using foldl_add_input [OF assms(1,2)] by simp
next
  case (Merge p q)
  have tp: "totalp_on (set (flat p)) lt" and tq: "totalp_on (set (flat q)) lt"
    using Merge.prems by (auto simp: totalp_on_def)
  have tpq: "totalp_on (set (flat p) \<union> set (flat q)) lt" using Merge.prems by simp
  have tq': "totalp_on (set (top_of lt n (flat p)) \<union> set (flat q)) lt"
    using tpq set_top_of [of lt n "flat p"] by (auto simp: totalp_on_def)
  have "run_plan lt n (Merge p q) = top_of lt n (top_of lt n (flat p) @ top_of lt n (flat q))"
    using Merge.IH(1) [OF tp] Merge.IH(2) [OF tq]
    by (simp add: merge_accumulators_def top_of_def)
  also have "\<dots> = top_of lt n (top_of lt n (flat p) @ flat q)"
    by (rule top_of_append_right [OF assms(1,2) tq])
  also have "\<dots> = top_of lt n (flat p @ flat q)"
    by (rule top_of_append_left [OF assms(1,2) tpq])
  finally show ?case by simp
qed

subsection \<open>The claim\<close>

lemma by_count_order:
  "irreflp (\<lambda>a b :: nat \<times> string. fst a < fst b)"
  "transp (\<lambda>a b :: nat \<times> string. fst a < fst b)"
  by (auto simp: irreflp_def transp_def)

text \<open>
  C2, as stated, with the comparator of \<^verbatim>\<open>TopPerMonth\<close> (the counts are compared, the
  keys are not), N = 1 and two elements of equal count: the two shards merged in one
  order give one element, merged in the other order the other, and so does the fold
  through a single accumulator in the two orders. The result is not a function of the
  multiset.
\<close>

theorem top_n_ties_counterexample:
  "elements (Merge (Shard [(''a'', 1::nat)]) (Shard [(''b'', 1)])) = mset [(''b'', 1), (''a'', 1)] \<and>
   elements (Merge (Shard [(''b'', 1::nat)]) (Shard [(''a'', 1)])) = mset [(''b'', 1), (''a'', 1)] \<and>
   extract_output (run_plan (\<lambda>first second. snd first < snd second) (Suc 0)
       (Merge (Shard [(''a'', 1::nat)]) (Shard [(''b'', 1)]))) = [(''a'', 1)] \<and>
   extract_output (run_plan (\<lambda>first second. snd first < snd second) (Suc 0)
       (Merge (Shard [(''b'', 1::nat)]) (Shard [(''a'', 1)]))) = [(''b'', 1)] \<and>
   extract_output (foldl (add_input (\<lambda>first second. snd first < snd second) (Suc 0))
       create_accumulator [(''b'', 1::nat), (''a'', 1)]) = [(''b'', 1)] \<and>
   extract_output (run_plan (\<lambda>first second. snd first < snd second) (Suc 0)
       (Merge (Shard [(''a'', 1::nat)]) (Shard [(''b'', 1)]))) \<noteq>
     extract_output (foldl (add_input (\<lambda>first second. snd first < snd second) (Suc 0))
       create_accumulator [(''b'', 1::nat), (''a'', 1)])"
  by (simp add: extract_output_def merge_accumulators_def add_input_def
      create_accumulator_def)

text \<open>
  C2, amended. When the comparator is a strict order (irreflexive and transitive) under
  which any two different elements of the multiset are comparable, so that there are no
  ties, then for every partition into shards and every merge order the extracted result
  equals the result of folding all elements, in any order, through one accumulator. In
  particular the counts to:3, this:2, that:1 with N = 3, compared by count, give
  \<^verbatim>\<open>[(3,'to'), (2,'this'), (1,'that')]\<close> for every partition and merge order.
\<close>

theorem top_n_merge_order:
  assumes "irreflp lt" and "transp lt" and "totalp_on (set ys) lt"
    and "elements p = mset ys"
    and "elements q = {#(3::nat, ''to''), (2, ''this''), (1, ''that'')#}"
  shows "extract_output (run_plan lt n p) =
       extract_output (foldl (add_input lt n) create_accumulator ys) \<and>
     extract_output (run_plan (\<lambda>a b. fst a < fst b) 3 q) =
       [(3, ''to''), (2, ''this''), (1, ''that'')]"
proof
  have m: "mset (flat p) = mset ys" using assms(4) by (simp add: flat_elements)
  then have "set (flat p) = set ys" by (rule mset_eq_setD)
  then have t: "totalp_on (set (flat p)) lt" using assms(3) by simp
  have "run_plan lt n p = top_of lt n (flat p)" by (rule run_plan_top_of [OF assms(1,2) t])
  also have "\<dots> = top_of lt n ys" by (rule top_of_mset_cong [OF assms(1,2) t m])
  also have "\<dots> = foldl (add_input lt n) create_accumulator ys"
    by (rule foldl_add_input [OF assms(1,2,3), symmetric])
  finally show "extract_output (run_plan lt n p) =
       extract_output (foldl (add_input lt n) create_accumulator ys)"
    by (simp add: extract_output_def)
next
  let ?lt = "\<lambda>a b :: nat \<times> string. fst a < fst b"
  let ?zs = "[(3::nat, ''to''), (2, ''this''), (1, ''that'')]"
  have m: "mset (flat q) = mset ?zs" using assms(5) by (simp add: flat_elements)
  then have "set (flat q) = set ?zs" by (rule mset_eq_setD)
  then have t: "totalp_on (set (flat q)) ?lt" by (simp add: totalp_on_def)
  have "run_plan ?lt 3 q = top_of ?lt 3 (flat q)"
    by (rule run_plan_top_of [OF by_count_order t])
  also have "\<dots> = top_of ?lt 3 ?zs" by (rule top_of_mset_cong [OF by_count_order t m])
  also have "\<dots> = ?zs" by (simp add: top_of_def)
  finally show "extract_output (run_plan ?lt 3 q) = ?zs" by (simp add: extract_output_def)
qed

theorem top_n_merge_order_witness:
  "irreflp (\<lambda>a b :: nat \<times> string. fst a < fst b) \<and>
   transp (\<lambda>a b :: nat \<times> string. fst a < fst b) \<and>
   totalp_on (set [(2::nat, ''this''), (3, ''to''), (1, ''that'')]) (\<lambda>a b. fst a < fst b) \<and>
   elements (Merge (Shard [(1::nat, ''that'')]) (Shard [(3, ''to''), (2, ''this'')])) =
     mset [(2, ''this''), (3, ''to''), (1, ''that'')] \<and>
   elements (Merge (Merge (Shard [(2::nat, ''this'')]) (Shard [])) (Shard [(1, ''that''), (3, ''to'')])) =
     {#(3, ''to''), (2, ''this''), (1, ''that'')#} \<and>
   extract_output (run_plan (\<lambda>a b. fst a < fst b) 2
       (Merge (Shard [(1::nat, ''that'')]) (Shard [(3, ''to''), (2, ''this'')]))) =
     extract_output (foldl (add_input (\<lambda>a b. fst a < fst b) 2) create_accumulator
       [(2, ''this''), (3, ''to''), (1, ''that'')]) \<and>
   extract_output (run_plan (\<lambda>a b. fst a < fst b) 3
       (Merge (Merge (Shard [(2::nat, ''this'')]) (Shard [])) (Shard [(1, ''that''), (3, ''to'')]))) =
     [(3, ''to''), (2, ''this''), (1, ''that'')]"
proof -
  have e1: "elements (Merge (Shard [(1::nat, ''that'')]) (Shard [(3, ''to''), (2, ''this'')])) =
     mset [(2, ''this''), (3, ''to''), (1, ''that'')]"
    by simp
  have e2: "elements (Merge (Merge (Shard [(2::nat, ''this'')]) (Shard []))
       (Shard [(1, ''that''), (3, ''to'')])) = {#(3, ''to''), (2, ''this''), (1, ''that'')#}"
    by simp
  have t: "totalp_on (set [(2::nat, ''this''), (3, ''to''), (1, ''that'')]) (\<lambda>a b. fst a < fst b)"
    by (simp add: totalp_on_def)
  show ?thesis
    using top_n_merge_order [OF by_count_order t e1 e2, of 2] by_count_order t e1 e2
    by simp
qed

section \<open>The top sessions of the test edits\<close>

subsection \<open>Strings of numbers\<close>

lemma str_nat_digit: "n < 10 \<Longrightarrow> str_nat n = [digit_char n]"
  by (simp add: str_nat.simps)

lemma str_nat_more: "\<not> n < 10 \<Longrightarrow> str_nat n = str_nat (n div 10) @ [digit_char (n mod 10)]"
  by (subst str_nat.simps) simp

lemma floor_rat_numeral:
  "\<lfloor>(numeral a / numeral b :: rat)\<rfloor> = numeral a div numeral b"
  using floor_divide_of_int_eq [of "numeral a" "numeral b", where ?'a = rat] by simp

lemma frac_digits_values:
  "frac_digits 12 0 = []"
  "frac_digits 12 (1 / 500) = ''002''"
  "frac_digits 12 (301 / 500) = ''602''"
  by code_simp+

lemma str_nat_values:
  "str_nat 0 = ''0''" "str_nat (Suc 0) = ''1''" "str_nat 3 = ''3''" "str_nat 4 = ''4''"
  "str_nat 3600 = ''3600''" "str_nat 3603 = ''3603''" "str_nat 7200 = ''7200''"
  "str_nat 10800 = ''10800''" "str_nat 3024 = ''3024''" "str_nat 6624 = ''6624''"
  "str_nat 2592000 = ''2592000''"
  by (simp_all add: str_nat_digit str_nat_more digit_char_def)

lemma str_float_values:
  "str_float 0 = ''0.0''"
  "str_float (1800001 / 500) = ''3600.002''"
  "str_float (1801801 / 500) = ''3603.602''"
  "str_float 7200 = ''7200.0''"
  "str_float 10800 = ''10800.0''"
  "str_float 3024 = ''3024.0''"
  "str_float 6624 = ''6624.0''"
  "str_float 2592000 = ''2592000.0''"
  by (simp_all add: str_float_def Let_def floor_rat_numeral frac_digits_values str_nat_values)

subsection \<open>The stages of the pipeline\<close>

lemma extract_edits:
  "ParDo ExtractUserAndTimestampDoFn_process (Create t0 EDITS) =
     Inr [WindowedValue ''user1'' 0 [GlobalWindow],
          WindowedValue ''user1'' (1 / 1000) [GlobalWindow],
          WindowedValue ''user1'' (2 / 1000) [GlobalWindow],
          WindowedValue ''user2'' 0 [GlobalWindow],
          WindowedValue ''user2'' (1 / 1000) [GlobalWindow],
          WindowedValue ''user2'' (3601 / 1000) [GlobalWindow],
          WindowedValue ''user2'' (3602 / 1000) [GlobalWindow],
          WindowedValue ''user2'' 7200 [GlobalWindow],
          WindowedValue ''user3'' 3024 [GlobalWindow]]"
  by (simp add: Create_def EDITS_def edit_def ExtractUserAndTimestampDoFn_process_def
      WindowedValue_def)

lemma sessions_of_edits:
  "ComputeSessions out_ts
     [WindowedValue ''user1'' 0 [GlobalWindow],
      WindowedValue ''user1'' (1 / 1000) [GlobalWindow],
      WindowedValue ''user1'' (2 / 1000) [GlobalWindow],
      WindowedValue ''user2'' 0 [GlobalWindow],
      WindowedValue ''user2'' (1 / 1000) [GlobalWindow],
      WindowedValue ''user2'' (3601 / 1000) [GlobalWindow],
      WindowedValue ''user2'' (3602 / 1000) [GlobalWindow],
      WindowedValue ''user2'' 7200 [GlobalWindow],
      WindowedValue ''user3'' 3024 [GlobalWindow]] =
   [WindowedValue (''user1'', 3) (out_ts (IntervalWindow 0 (3600002 / 1000)))
      [IntervalWindow 0 (3600002 / 1000)],
    WindowedValue (''user2'', 4) (out_ts (IntervalWindow 0 (3603602 / 1000)))
      [IntervalWindow 0 (3603602 / 1000)],
    WindowedValue (''user2'', 1) (out_ts (IntervalWindow 7200 10800))
      [IntervalWindow 7200 10800],
    WindowedValue (''user3'', 1) (out_ts (IntervalWindow 3024 6624))
      [IntervalWindow 3024 6624]]"
  apply code_simp
  apply simp
  done

lemma strings_of_sessions:
  "ParDo SessionsToStringsDoFn_process
     [WindowedValue (''user1'', 3) t1 [IntervalWindow 0 (3600002 / 1000)],
      WindowedValue (''user2'', 4) t2 [IntervalWindow 0 (3603602 / 1000)],
      WindowedValue (''user2'', 1) t3 [IntervalWindow 7200 10800],
      WindowedValue (''user3'', 1) t4 [IntervalWindow 3024 6624]] =
   Inr [WindowedValue (''user1 : [0.0, 3600.002)'', 3) t1 [IntervalWindow 0 (3600002 / 1000)],
        WindowedValue (''user2 : [0.0, 3603.602)'', 4) t2 [IntervalWindow 0 (3603602 / 1000)],
        WindowedValue (''user2 : [7200.0, 10800.0)'', 1) t3 [IntervalWindow 7200 10800],
        WindowedValue (''user3 : [3024.0, 6624.0)'', 1) t4 [IntervalWindow 3024 6624]]"
  by (simp add: SessionsToStringsDoFn_process_def WindowedValue_def str_float_values)

lemma assign_first_fixed_window:
  assumes "0 \<le> t" and "t < sz"
  shows "assign (FixedWindows sz) t = [IntervalWindow 0 sz]"
proof -
  have "\<lfloor>t / sz\<rfloor> = 0" using assms by (simp add: floor_eq_iff)
  then show ?thesis by (simp add: fmod_def)
qed

lemma top_of_strings:
  "CombineGlobally_without_defaults 10 (\<lambda>first second. snd first < snd second)
     (FixedWindows THIRTY_DAYS_IN_SECONDS) out_ts
     [WindowedValue (''user1 : [0.0, 3600.002)'', 3::nat) t1 [IntervalWindow 0 2592000],
      WindowedValue (''user2 : [0.0, 3603.602)'', 4) t2 [IntervalWindow 0 2592000],
      WindowedValue (''user2 : [7200.0, 10800.0)'', 1) t3 [IntervalWindow 0 2592000],
      WindowedValue (''user3 : [3024.0, 6624.0)'', 1) t4 [IntervalWindow 0 2592000]] =
   [WindowedValue
      [(''user2 : [0.0, 3603.602)'', 4), (''user1 : [0.0, 3600.002)'', 3),
       (''user2 : [7200.0, 10800.0)'', 1), (''user3 : [3024.0, 6624.0)'', 1)]
      (out_ts (IntervalWindow 0 2592000)) [IntervalWindow 0 2592000]]"
  by (simp add: CombineGlobally_without_defaults_def group_by_window_def WindowedValue_def
      add_input_def create_accumulator_def extract_output_def)

lemma format_top:
  "ParDo FormatOutputDoFn_process
     [WindowedValue
        [(''user2 : [0.0, 3603.602)'', 4), (''user1 : [0.0, 3600.002)'', 3),
         (''user2 : [7200.0, 10800.0)'', 1), (''user3 : [3024.0, 6624.0)'', 1)]
        t [IntervalWindow 0 2592000]] =
   Inr [WindowedValue ''user2 : [0.0, 3603.602) : 4 : [0.0, 2592000.0)'' t [IntervalWindow 0 2592000],
        WindowedValue ''user1 : [0.0, 3600.002) : 3 : [0.0, 2592000.0)'' t [IntervalWindow 0 2592000],
        WindowedValue ''user2 : [7200.0, 10800.0) : 1 : [0.0, 2592000.0)'' t [IntervalWindow 0 2592000],
        WindowedValue ''user3 : [3024.0, 6624.0) : 1 : [0.0, 2592000.0)'' t [IntervalWindow 0 2592000]]"
  by (simp add: FormatOutputDoFn_process_def WindowedValue_def str_float_values str_nat_values)

subsection \<open>The claim\<close>

text \<open>
  C1. \<^verbatim>\<open>ComputeTopSessions(1.0)\<close> applied to the nine edits of the test (user1 at 0.0,
  0.001, 0.002; user2 at 0.0, 0.001, 3.601, 3.602 and 7200.0; user3 at 3024.0), with the
  one-hour session gap, the 30-day fixed windows and the top 10 per window, runs without
  error and its output is the four records below, as a multiset (in any order). This
  holds for every hash whose values on the three user names lie within \<^verbatim>\<open>sys.maxint\<close>
  in absolute value (the filter then keeps all nine edits), for every timestamp given to
  the created elements, and for every stamping of the outputs of a grouping within the
  bounds of their window.
\<close>

theorem compute_top_sessions_test:
  assumes hash: "\<bar>hash ''user1''\<bar> \<le> maxint" "\<bar>hash ''user2''\<bar> \<le> maxint"
      "\<bar>hash ''user3''\<bar> \<le> maxint"
    and out_ts: "\<forall>s e. s < e \<longrightarrow> s \<le> out_ts (IntervalWindow s e) \<and> out_ts (IntervalWindow s e) \<le> e"
  shows "\<exists>result. ComputeTopSessions hash out_ts 1 (Create t0 EDITS) = Inr result \<and>
     mset (get_un_windowed_value result) =
       {#''user1 : [0.0, 3600.002) : 3 : [0.0, 2592000.0)'',
         ''user2 : [0.0, 3603.602) : 4 : [0.0, 2592000.0)'',
         ''user2 : [7200.0, 10800.0) : 1 : [0.0, 2592000.0)'',
         ''user3 : [3024.0, 6624.0) : 1 : [0.0, 2592000.0)''#}"
proof -
  let ?extracted = "[WindowedValue ''user1'' 0 [GlobalWindow],
          WindowedValue ''user1'' (1 / 1000) [GlobalWindow],
          WindowedValue ''user1'' (2 / 1000) [GlobalWindow],
          WindowedValue ''user2'' 0 [GlobalWindow],
          WindowedValue ''user2'' (1 / 1000) [GlobalWindow],
          WindowedValue ''user2'' (3601 / 1000) [GlobalWindow],
          WindowedValue ''user2'' (3602 / 1000) [GlobalWindow],
          WindowedValue ''user2'' 7200 [GlobalWindow],
          WindowedValue ''user3'' 3024 [GlobalWindow]]"
  let ?w1 = "IntervalWindow 0 (3600002 / 1000)"
  let ?w2 = "IntervalWindow 0 (3603602 / 1000)"
  let ?w3 = "IntervalWindow 7200 10800"
  let ?w4 = "IntervalWindow 3024 6624"
  let ?month = "IntervalWindow 0 2592000"
  have keep: "Filter (\<lambda>x. of_int \<bar>hash x\<bar> \<le> of_int maxint * (1::rat)) ?extracted = ?extracted"
  proof -
    have "\<And>u. \<bar>hash u\<bar> \<le> maxint \<Longrightarrow> \<bar>rat_of_int (hash u)\<bar> \<le> rat_of_int maxint"
      by (simp flip: of_int_abs)
    then show ?thesis using hash by (simp add: Filter_def WindowedValue_def)
  qed
  have b1: "0 \<le> out_ts ?w1" "out_ts ?w1 < 2592000"
    using out_ts [rule_format, of 0 "3600002 / 1000"] by simp_all
  have b2: "0 \<le> out_ts ?w2" "out_ts ?w2 < 2592000"
    using out_ts [rule_format, of 0 "3603602 / 1000"] by simp_all
  have b3: "0 \<le> out_ts ?w3" "out_ts ?w3 < 2592000"
    using out_ts [rule_format, of 7200 10800] by simp_all
  have b4: "0 \<le> out_ts ?w4" "out_ts ?w4 < 2592000"
    using out_ts [rule_format, of 3024 6624] by simp_all
  have month: "WindowInto (FixedWindows THIRTY_DAYS_IN_SECONDS)
       [WindowedValue (''user1 : [0.0, 3600.002)'', 3::nat) (out_ts ?w1) [?w1],
        WindowedValue (''user2 : [0.0, 3603.602)'', 4) (out_ts ?w2) [?w2],
        WindowedValue (''user2 : [7200.0, 10800.0)'', 1) (out_ts ?w3) [?w3],
        WindowedValue (''user3 : [3024.0, 6624.0)'', 1) (out_ts ?w4) [?w4]] =
     [WindowedValue (''user1 : [0.0, 3600.002)'', 3) (out_ts ?w1) [?month],
      WindowedValue (''user2 : [0.0, 3603.602)'', 4) (out_ts ?w2) [?month],
      WindowedValue (''user2 : [7200.0, 10800.0)'', 1) (out_ts ?w3) [?month],
      WindowedValue (''user3 : [3024.0, 6624.0)'', 1) (out_ts ?w4) [?month]]"
    using assign_first_fixed_window [OF b1]
      assign_first_fixed_window [OF b2]
      assign_first_fixed_window [OF b3]
      assign_first_fixed_window [OF b4]
    by (simp add: WindowInto_def WindowedValue_def THIRTY_DAYS_IN_SECONDS_def
        ONE_HOUR_IN_SECONDS_def del: assign.simps)
  have "ComputeTopSessions hash out_ts 1 (Create t0 EDITS) =
     Inr [WindowedValue ''user2 : [0.0, 3603.602) : 4 : [0.0, 2592000.0)''
            (out_ts ?month) [?month],
          WindowedValue ''user1 : [0.0, 3600.002) : 3 : [0.0, 2592000.0)''
            (out_ts ?month) [?month],
          WindowedValue ''user2 : [7200.0, 10800.0) : 1 : [0.0, 2592000.0)''
            (out_ts ?month) [?month],
          WindowedValue ''user3 : [3024.0, 6624.0) : 1 : [0.0, 2592000.0)''
            (out_ts ?month) [?month]]"
    unfolding ComputeTopSessions_def extract_edits
    by (simp only: sum.case keep sessions_of_edits strings_of_sessions TopPerMonth_def month
        top_of_strings format_top)
  then show ?thesis
    by (simp add: get_un_windowed_value_def WindowedValue_def)
qed

theorem compute_top_sessions_test_witness:
  "\<exists>result. ComputeTopSessions (\<lambda>u. int (length u)) w_end 1 (Create 0 EDITS) = Inr result \<and>
     mset (get_un_windowed_value result) =
       {#''user1 : [0.0, 3600.002) : 3 : [0.0, 2592000.0)'',
         ''user2 : [0.0, 3603.602) : 4 : [0.0, 2592000.0)'',
         ''user2 : [7200.0, 10800.0) : 1 : [0.0, 2592000.0)'',
         ''user3 : [3024.0, 6624.0) : 1 : [0.0, 2592000.0)''#}"
proof -
  have h: "\<bar>int (length ''user1'')\<bar> \<le> maxint" "\<bar>int (length ''user2'')\<bar> \<le> maxint"
    "\<bar>int (length ''user3'')\<bar> \<le> maxint"
    by (simp_all add: maxint_def)
  have w: "\<forall>s e. s < e \<longrightarrow> s \<le> w_end (IntervalWindow s e) \<and> w_end (IntervalWindow s e) \<le> e"
    by simp
  show ?thesis
    by (rule compute_top_sessions_test [of "\<lambda>u. int (length u)" w_end 0, OF h w])
qed

end
